theory Spec2Isabelle
  imports Main "HOL-Library.Multiset"
begin

section \<open>Data model\<close>

text \<open>
  The manifest type comes from the registry library (\<open>schema1.SignedManifest\<close> in
  \<^verbatim>\<open>src/main.go\<close>, \<open>manifest.SignedManifest\<close> in the older
  \<^verbatim>\<open>src/unnamed/part_000\<close>). The validator reads two of its fields only: the
  slice \<open>FSLayers\<close>, of which it takes the length, and the slice \<open>History\<close>, whose
  entries carry the string \<open>V1Compatibility\<close>.
\<close>

record fsLayer =
  BlobSum :: string

record history =
  V1Compatibility :: string

record signedManifest =
  FSLayers :: "fsLayer list"
  History :: "history list"

text \<open>The local type \<open>image\<close> of \<open>checkManifest\<close>.\<close>

record image =
  ID :: string
  Parent :: string

text \<open>\<open>var im image\<close>: Go's zero value, both strings empty.\<close>

definition zeroImage :: image where
  "zeroImage = \<lparr>ID = [], Parent = []\<rparr>"

text \<open>
  A Go \<open>error\<close> value: the sentinel \<open>io.EOF\<close>, which the program compares by
  identity, or any other error, known by the text that \<open>%v\<close> and \<open>Fprintln\<close> print.
\<close>

datatype error = EOF | Err string

fun errorText :: "error \<Rightarrow> string" where
  "errorText EOF = ''EOF''"
| "errorText (Err msg) = msg"

text \<open>
  \<open>json.Unmarshal([]byte(blob), &im)\<close> belongs to Go's standard library, so it is a
  parameter of the model: given the blob and the value of \<open>im\<close> before the call, it
  yields the text of the returned error (\<open>None\<close> for \<open>nil\<close>) and the value of \<open>im\<close>
  after the call.
\<close>

type_synonym unmarshal = "string \<Rightarrow> image \<Rightarrow> error option \<times> image"

text \<open>The line feed that ends every format string of the program.\<close>

definition newline :: string where
  "newline = [CHR 0x0A]"

section \<open>The manifest validator of \<^verbatim>\<open>src/main.go\<close>\<close>

text \<open>
  Every \<open>fmt.Printf\<close> writes one line to the standard output; the model collects the
  written strings in order. \<open>%s\<close> and \<open>%v\<close> print a string or an error as its text.
\<close>

definition noLayersLine :: "string \<Rightarrow> string" where
  "noLayersLine repoName = repoName @ '': no layers present'' @ newline"

definition mismatchLine :: "string \<Rightarrow> string" where
  "mismatchLine repoName = repoName @ '': mismatched layers and history'' @ newline"

definition unmarshalLine :: "string \<Rightarrow> string \<Rightarrow> string" where
  "unmarshalLine repoName err = repoName @ '': json unmarshal error: '' @ err @ newline"

definition parentLine :: "string \<Rightarrow> string \<Rightarrow> string" where
  "parentLine repoName parent =
     repoName @ '': parent not below in manifest (parent ID '' @ parent @ '')'' @ newline"

text \<open>
  The first loop: each history entry is decoded into a fresh \<open>im\<close>; an error is printed,
  and \<open>im\<close> is appended to \<open>images\<close> whether or not the call failed. The result is the
  pair of the printed lines and \<open>images\<close>.
\<close>

fun decodeHistory :: "unmarshal \<Rightarrow> string \<Rightarrow> history list \<Rightarrow> string list \<times> image list" where
  "decodeHistory um repoName [] = ([], [])"
| "decodeHistory um repoName (entry # rest) =
     (case um (V1Compatibility entry) zeroImage of
        (err, im) \<Rightarrow>
          (case decodeHistory um repoName rest of
             (out, images) \<Rightarrow>
               ((case err of Some e \<Rightarrow> [unmarshalLine repoName (errorText e)] | None \<Rightarrow> []) @ out,
                im # images)))"

text \<open>
  The inner loop over \<open>images[i:]\<close>: \<open>id\<close> takes the ID of each candidate in turn, and
  the loop breaks as soon as \<open>image.Parent == id\<close>. The result is the final \<open>id\<close>
  (\<open>id0\<close> is its value when the loop is entered).
\<close>

fun scanCandidates :: "string \<Rightarrow> string \<Rightarrow> image list \<Rightarrow> string" where
  "scanCandidates parent id0 [] = id0"
| "scanCandidates parent id0 (parentCandidate # rest) =
     (if parent = ID parentCandidate then ID parentCandidate
      else scanCandidates parent (ID parentCandidate) rest)"

text \<open>
  The candidates on which the body of the inner loop runs, in order: the loop with a
  trace in place of \<open>id\<close>.
\<close>

fun scanVisited :: "string \<Rightarrow> image list \<Rightarrow> image list" where
  "scanVisited parent [] = []"
| "scanVisited parent (parentCandidate # rest) =
     (if parent = ID parentCandidate then [parentCandidate]
      else parentCandidate # scanVisited parent rest)"

text \<open>The body of the outer loop at index \<open>i\<close> (\<open>i < len(images)\<close>): the lines it prints.\<close>

definition checkParent :: "string \<Rightarrow> image list \<Rightarrow> nat \<Rightarrow> string list" where
  "checkParent repoName images i =
     (if Parent (images ! i) \<noteq> [] then
        (if Parent (images ! i) \<noteq> scanCandidates (Parent (images ! i)) [] (drop i images)
         then [parentLine repoName (Parent (images ! i))]
         else [])
      else [])"

definition checkParents :: "string \<Rightarrow> image list \<Rightarrow> string list" where
  "checkParents repoName images =
     concat (map (checkParent repoName images) [0..<length images])"

text \<open>
  \<open>checkManifest\<close>: the printed lines and the returned error (\<open>None\<close> for \<open>nil\<close>; the
  function has no other return statement).
\<close>

definition checkManifest :: "unmarshal \<Rightarrow> string \<Rightarrow> signedManifest \<Rightarrow> string list \<times> error option" where
  "checkManifest um repoName mnfst =
     (case decodeHistory um repoName (History mnfst) of
        (out, images) \<Rightarrow>
          ((if length (FSLayers mnfst) = 0 \<or> length (History mnfst) = 0
            then [noLayersLine repoName] else [])
           @ (if length (FSLayers mnfst) \<noteq> length (History mnfst)
              then [mismatchLine repoName] else [])
           @ out
           @ checkParents repoName images,
           None))"

section \<open>The manifest validator of \<^verbatim>\<open>src/unnamed/part_000\<close>\<close>

text \<open>
  The older file has its own \<open>checkManifest\<close>, over \<open>manifest.SignedManifest\<close>; it is
  translated from that file, loop by loop, under names of its own.
\<close>

fun decodeHistory_part000 :: "unmarshal \<Rightarrow> string \<Rightarrow> history list \<Rightarrow> string list \<times> image list" where
  "decodeHistory_part000 um repoName [] = ([], [])"
| "decodeHistory_part000 um repoName (entry # rest) =
     (case um (V1Compatibility entry) zeroImage of
        (err, im) \<Rightarrow>
          (case decodeHistory_part000 um repoName rest of
             (out, images) \<Rightarrow>
               ((case err of
                   Some e \<Rightarrow> [repoName @ '': json unmarshal error: '' @ errorText e @ newline]
                 | None \<Rightarrow> []) @ out,
                im # images)))"

fun scanCandidates_part000 :: "string \<Rightarrow> string \<Rightarrow> image list \<Rightarrow> string" where
  "scanCandidates_part000 parent id0 [] = id0"
| "scanCandidates_part000 parent id0 (parentCandidate # rest) =
     (if parent = ID parentCandidate then ID parentCandidate
      else scanCandidates_part000 parent (ID parentCandidate) rest)"

fun checkParents_part000 :: "string \<Rightarrow> image list \<Rightarrow> nat list \<Rightarrow> string list" where
  "checkParents_part000 repoName images [] = []"
| "checkParents_part000 repoName images (i # rest) =
     (if Parent (images ! i) \<noteq> []
         \<and> Parent (images ! i) \<noteq> scanCandidates_part000 (Parent (images ! i)) [] (drop i images)
      then [repoName @ '': parent not below in manifest (parent ID '' @ Parent (images ! i)
              @ '')'' @ newline]
      else [])
     @ checkParents_part000 repoName images rest"

definition checkManifest_part000 :: "unmarshal \<Rightarrow> string \<Rightarrow> signedManifest \<Rightarrow> string list \<times> error option" where
  "checkManifest_part000 um repoName mnfst =
     (case decodeHistory_part000 um repoName (History mnfst) of
        (out, images) \<Rightarrow>
          ((if length (FSLayers mnfst) = 0 \<or> length (History mnfst) = 0
            then [repoName @ '': no layers present'' @ newline] else [])
           @ (if length (FSLayers mnfst) \<noteq> length (History mnfst)
              then [repoName @ '': mismatched layers and history'' @ newline] else [])
           @ out
           @ checkParents_part000 repoName images [0..<length images],
           None))"

section \<open>The registry and the scan of one repository\<close>

text \<open>
  The registry (\<open>distribution.Namespace\<close>) is the external collaborator. The model takes
  its five operations as functions that answer a call with an error or with a value;
  \<open>'r\<close> is the type of repository handles and \<open>'m\<close> that of manifest services.
  \<open>Repositories\<close> receives the buffer \<open>repos\<close> and the start name, and answers with the
  buffer after the call, the count \<open>n\<close> (a Go \<open>int\<close>) and the error.
\<close>

record ('r, 'm) namespace =
  Repository :: "string \<Rightarrow> error + 'r"
  Manifests :: "'r \<Rightarrow> error + 'm"
  Tags :: "'m \<Rightarrow> error + string list"
  GetByTag :: "'m \<Rightarrow> string \<Rightarrow> error + signedManifest"
  Repositories :: "string list \<Rightarrow> string \<Rightarrow> string list \<times> int \<times> error option"

text \<open>What the program writes: the stream and the text of each write, in order.\<close>

datatype stream = Stdout | Stderr

type_synonym event = "stream \<times> string"

text \<open>
  \<open>checkRepo\<close> of \<^verbatim>\<open>src/main.go\<close>. Its format string
  \<open>checking repo %s (%d tags)\<close> gets one argument for two verbs, so \<open>fmt\<close> prints
  \<open>%!d(MISSING)\<close> for the second. The tag loop returns at the first failing
  \<open>GetByTag\<close>, and at an error of \<open>checkManifest\<close>.
\<close>

definition checkingLine :: "string \<Rightarrow> string" where
  "checkingLine repoName = ''checking repo '' @ repoName @ '' (%!d(MISSING) tags)'' @ newline"

fun checkTags :: "unmarshal \<Rightarrow> ('r, 'm) namespace \<Rightarrow> 'm \<Rightarrow> string \<Rightarrow> string list \<Rightarrow> event list \<times> error option" where
  "checkTags um registry manifests repoName [] = ([], None)"
| "checkTags um registry manifests repoName (tag # rest) =
     (case GetByTag registry manifests tag of
        Inl err \<Rightarrow> ([], Some (Err (''unexpected error getting manifest by tag: '' @ errorText err)))
      | Inr mnfst \<Rightarrow>
          (case checkManifest um repoName mnfst of
             (out, Some err) \<Rightarrow> (map (Pair Stdout) out, Some err)
           | (out, None) \<Rightarrow>
               (case checkTags um registry manifests repoName rest of
                  (out', res) \<Rightarrow> (map (Pair Stdout) out @ out', res))))"

definition checkRepo :: "unmarshal \<Rightarrow> ('r, 'm) namespace \<Rightarrow> string \<Rightarrow> event list \<times> error option" where
  "checkRepo um registry repoName =
     (case Repository registry repoName of
        Inl err \<Rightarrow> ([], Some (Err (''unexpected error getting repository: '' @ errorText err)))
      | Inr repo \<Rightarrow>
          (case Manifests registry repo of
             Inl err \<Rightarrow> ([], Some (Err (''unexpected error getting manifests: '' @ errorText err)))
           | Inr manifests \<Rightarrow>
               (case Tags registry manifests of
                  Inl err \<Rightarrow> ([], Some (Err (''unexpected error getting tags: '' @ errorText err)))
                | Inr tags \<Rightarrow>
                    (case checkTags um registry manifests repoName tags of
                       (out, res) \<Rightarrow> ((Stderr, checkingLine repoName) # out, res)))))"

text \<open>\<open>checkRepo\<close> of \<^verbatim>\<open>src/unnamed/part_000\<close>: the same calls, without the line on the standard error.\<close>

fun checkTags_part000 :: "unmarshal \<Rightarrow> ('r, 'm) namespace \<Rightarrow> 'm \<Rightarrow> string \<Rightarrow> string list \<Rightarrow> event list \<times> error option" where
  "checkTags_part000 um registry manifests repoName [] = ([], None)"
| "checkTags_part000 um registry manifests repoName (tag # rest) =
     (case GetByTag registry manifests tag of
        Inl err \<Rightarrow> ([], Some (Err (''unexpected error getting manifest by tag: '' @ errorText err)))
      | Inr mnfst \<Rightarrow>
          (case checkManifest_part000 um repoName mnfst of
             (out, Some err) \<Rightarrow> (map (Pair Stdout) out, Some err)
           | (out, None) \<Rightarrow>
               (case checkTags_part000 um registry manifests repoName rest of
                  (out', res) \<Rightarrow> (map (Pair Stdout) out @ out', res))))"

definition checkRepo_part000 :: "unmarshal \<Rightarrow> ('r, 'm) namespace \<Rightarrow> string \<Rightarrow> event list \<times> error option" where
  "checkRepo_part000 um registry repoName =
     (case Repository registry repoName of
        Inl err \<Rightarrow> ([], Some (Err (''unexpected error getting repository: '' @ errorText err)))
      | Inr repo \<Rightarrow>
          (case Manifests registry repo of
             Inl err \<Rightarrow> ([], Some (Err (''unexpected error getting manifests: '' @ errorText err)))
           | Inr manifests \<Rightarrow>
               (case Tags registry manifests of
                  Inl err \<Rightarrow> ([], Some (Err (''unexpected error getting tags: '' @ errorText err)))
                | Inr tags \<Rightarrow> checkTags_part000 um registry manifests repoName tags)))"

section \<open>The list of repositories\<close>

text \<open>
  The lines of a file, as the bytes of its content give them: the text before each line
  feed, and the text after the last line feed when it is not empty. \<open>line\<close> holds the
  bytes of the line being read.
\<close>

fun fileLines :: "string \<Rightarrow> string \<Rightarrow> string list" where
  "fileLines line [] = (if line = [] then [] else [line])"
| "fileLines line (c # rest) =
     (if c = CHR 0x0A then line # fileLines [] rest else fileLines (line @ [c]) rest)"

text \<open>
  \<open>bufio.NewScanner(reposFile)\<close> with its default split function \<open>ScanLines\<close> and its
  default buffer belongs to Go's standard library; the model follows its documentation.
  A token is a line without its line feed and without one carriage return at its end
  (\<open>dropCR\<close>). The buffer holds at most \<open>MaxScanTokenSize\<close> = 64 * 1024 bytes, the line
  feed included: at the first line of that many bytes or more \<open>Scan\<close> returns false with
  the error \<open>ErrTooLong\<close>, as it does at the end of the input. \<open>main\<close> leaves the loop
  when \<open>Scan\<close> returns false and never calls \<open>scanner.Err()\<close>. So \<open>scanLines\<close> gives
  the strings that \<open>scanner.Text()\<close> yields in the loop of \<open>main\<close>.
\<close>

definition dropCR :: "string \<Rightarrow> string" where
  "dropCR line = (if line \<noteq> [] \<and> last line = CHR 0x0D then butlast line else line)"

definition maxScanTokenSize :: nat where
  "maxScanTokenSize = 64 * 1024"

definition scanLines :: "string \<Rightarrow> string list" where
  "scanLines content =
     map dropCR (takeWhile (\<lambda>line. length line < maxScanTokenSize) (fileLines [] content))"

text \<open>
  The scanner loop of \<open>main\<close> (the same text in both files), over the strings that
  \<open>scanner.Text()\<close> yields for the successive successful calls of \<open>scanner.Scan()\<close>:
  the test \<open>len(repoName) > 0\<close> comes first, then the test of the first byte.
\<close>

fun readRepos :: "string list \<Rightarrow> string list \<Rightarrow> string list" where
  "readRepos repos [] = repos"
| "readRepos repos (repoName # rest) =
     (if length repoName > 0 then
        (if hd repoName = CHR ''+'' then readRepos (repos @ [tl repoName]) rest
         else readRepos (repos @ [repoName]) rest)
      else readRepos repos rest)"

definition maxRepos :: int where
  "maxRepos = 500000"

text \<open>
  The other branch: \<open>repos = make([]string, maxRepos)\<close>, the call of
  \<open>registry.Repositories\<close>, the two panics, and the slice \<open>repos[:n]\<close>, which panics
  at run time when \<open>n\<close> is negative or beyond the capacity \<open>maxRepos\<close>. \<open>Inl\<close> holds the
  message of a panic.
\<close>

definition enumerateRepos :: "('r, 'm) namespace \<Rightarrow> string + string list" where
  "enumerateRepos registry =
     (case Repositories registry (replicate (nat maxRepos) []) [] of
        (repos, n, err) \<Rightarrow>
          (if err \<noteq> None \<and> err \<noteq> Some EOF
           then Inl (''unexpected error getting repo: '' @ (case err of Some e \<Rightarrow> errorText e | None \<Rightarrow> []))
           else if n = maxRepos then Inl ''too many repositories''
           else if n < 0 \<or> maxRepos < n then Inl ''runtime error: slice bounds out of range''
           else Inr (take (nat n) repos)))"

text \<open>
  \<open>openRepos\<close> stands for \<open>os.Open(reposPath)\<close>: its error, or the bytes that the
  opened file delivers to the scanner.
\<close>

definition resolveRepos ::
  "('r, 'm) namespace \<Rightarrow> (string \<Rightarrow> error + string) \<Rightarrow> string \<Rightarrow> string + string list" where
  "resolveRepos registry openRepos reposPath =
     (if reposPath \<noteq> [] then
        (case openRepos reposPath of
           Inl err \<Rightarrow> Inl (''could not open repos file: '' @ errorText err)
         | Inr content \<Rightarrow> Inr (readRepos [] (scanLines content)))
      else enumerateRepos registry)"

section \<open>The scan of all repositories\<close>

subsection \<open>\<^verbatim>\<open>src/unnamed/part_000\<close>: one loop\<close>

text \<open>
  \<open>for _, repoName := range repos { if err := checkRepo(registry, repoName); err != nil
  { panic(err) } }\<close>. The result holds the writes, the names on which \<open>checkRepo\<close> was
  called, and the value of the panic, if any.
\<close>

fun scanRepos_part000 ::
  "unmarshal \<Rightarrow> ('r, 'm) namespace \<Rightarrow> string list \<Rightarrow> event list \<times> string list \<times> error option" where
  "scanRepos_part000 um registry [] = ([], [], None)"
| "scanRepos_part000 um registry (repoName # rest) =
     (case checkRepo_part000 um registry repoName of
        (out, Some err) \<Rightarrow> (out, [repoName], Some err)
      | (out, None) \<Rightarrow>
          (case scanRepos_part000 um registry rest of
             (out', called, res) \<Rightarrow> (out @ out', repoName # called, res)))"

subsection \<open>\<^verbatim>\<open>src/main.go\<close>: thirty workers on one channel\<close>

text \<open>
  What one worker does with a name it received: \<open>checkRepo\<close>, then
  \<open>fmt.Fprintln(os.Stderr, err)\<close> when the error is not \<open>nil\<close>.
\<close>

definition workerBody :: "unmarshal \<Rightarrow> ('r, 'm) namespace \<Rightarrow> string \<Rightarrow> event list" where
  "workerBody um registry repoName =
     (case checkRepo um registry repoName of
        (out, Some err) \<Rightarrow> out @ [(Stderr, errorText err @ newline)]
      | (out, None) \<Rightarrow> out)"

text \<open>
  A worker is blocked in \<open>range repoChan\<close>, or inside the loop body with the writes it
  has still to make, or past \<open>wg.Done()\<close>.
\<close>

datatype worker = Waiting | Busy "event list" | Exited

text \<open>
  The state of the pool: the names the sending loop of \<open>main\<close> has not sent yet, whether
  \<open>close(repoChan)\<close> has happened, the workers, the writes made so far, and (for the
  statements only) the names on which \<open>checkRepo\<close> has been called, in the order of the calls.
\<close>

record pool =
  queue :: "string list"
  closed :: bool
  workers :: "worker list"
  written :: "event list"
  called :: "string list"

definition initPool :: "string list \<Rightarrow> pool" where
  "initPool repos =
     \<lparr>queue = repos, closed = False, workers = replicate 30 Waiting, written = [], called = []\<rparr>"

text \<open>
  One step of some goroutine. The channel is unbuffered: a send of \<open>main\<close> and a receive
  of a waiting worker happen together. Any interleaving of the steps is a run.
\<close>

inductive step :: "unmarshal \<Rightarrow> ('r, 'm) namespace \<Rightarrow> pool \<Rightarrow> pool \<Rightarrow> bool"
  for um :: unmarshal and registry :: "('r, 'm) namespace" where
  receive_step:
    "queue s = repoName # rest \<Longrightarrow> w < length (workers s) \<Longrightarrow> workers s ! w = Waiting \<Longrightarrow>
     step um registry s
       (s\<lparr>queue := rest, workers := (workers s)[w := Busy (workerBody um registry repoName)],
          called := called s @ [repoName]\<rparr>)"
| write_step:
    "w < length (workers s) \<Longrightarrow> workers s ! w = Busy (e # es) \<Longrightarrow>
     step um registry s (s\<lparr>workers := (workers s)[w := Busy es], written := written s @ [e]\<rparr>)"
| again_step:
    "w < length (workers s) \<Longrightarrow> workers s ! w = Busy [] \<Longrightarrow>
     step um registry s (s\<lparr>workers := (workers s)[w := Waiting]\<rparr>)"
| close_step:
    "queue s = [] \<Longrightarrow> \<not> closed s \<Longrightarrow> step um registry s (s\<lparr>closed := True\<rparr>)"
| exit_step:
    "closed s \<Longrightarrow> w < length (workers s) \<Longrightarrow> workers s ! w = Waiting \<Longrightarrow>
     step um registry s (s\<lparr>workers := (workers s)[w := Exited]\<rparr>)"

text \<open>The states a run of \<open>main\<close> over \<open>repos\<close> can be in.\<close>

definition reachable :: "unmarshal \<Rightarrow> ('r, 'm) namespace \<Rightarrow> string list \<Rightarrow> pool \<Rightarrow> bool" where
  "reachable um registry repos s = rtranclp (step um registry) (initPool repos) s"

text \<open>\<open>wg.Wait()\<close> returns, and \<open>main\<close> with it, once the channel is closed and every worker is past \<open>wg.Done()\<close>.\<close>

definition finished :: "pool \<Rightarrow> bool" where
  "finished s = (closed s \<and> list_all (\<lambda>w. w = Exited) (workers s))"

text \<open>The number of steps a state has left.\<close>

fun workerSteps :: "worker \<Rightarrow> nat" where
  "workerSteps Waiting = 1"
| "workerSteps (Busy es) = length es + 2"
| "workerSteps Exited = 0"

definition stepsLeft :: "unmarshal \<Rightarrow> ('r, 'm) namespace \<Rightarrow> pool \<Rightarrow> nat" where
  "stepsLeft um registry s =
     sum_list (map (\<lambda>repoName. length (workerBody um registry repoName) + 2) (queue s))
     + (if closed s then 0 else 1)
     + sum_list (map workerSteps (workers s))"

text \<open>The writes a worker has still to make for the name it holds.\<close>

fun pendingWrites :: "worker \<Rightarrow> event multiset" where
  "pendingWrites Waiting = {#}"
| "pendingWrites (Busy es) = mset es"
| "pendingWrites Exited = {#}"

section \<open>Sample inputs\<close>

text \<open>
  A decoder that answers as \<open>encoding/json\<close> does on five blobs: three objects that
  decode; an object whose \<open>parent\<close> is a number, where \<open>json.Unmarshal\<close> skips that
  field, completes the other fields and returns an \<open>UnmarshalTypeError\<close>; and a text
  that is not JSON, where it returns a \<open>SyntaxError\<close> before it writes any field.
  No statement below uses it at any other blob.
\<close>

definition sampleUnmarshal :: unmarshal where
  \<open>sampleUnmarshal blob im =
     (if blob = ''{"id":"a","parent":"b"}'' then (None, im\<lparr>ID := ''a'', Parent := ''b''\<rparr>)
      else if blob = ''{"id":"b"}'' then (None, im\<lparr>ID := ''b''\<rparr>)
      else if blob = ''{"id":"c","parent":"c"}'' then (None, im\<lparr>ID := ''c'', Parent := ''c''\<rparr>)
      else if blob = ''{"id":"b","parent":7}'' then
        (Some (Err ''json: cannot unmarshal number into Go struct field image.parent of type string''),
         im\<lparr>ID := ''b''\<rparr>)
      else (Some (Err ''invalid character 'o' in literal null (expecting 'u')''), im))\<close>

definition manifestOf :: "string list \<Rightarrow> signedManifest" where
  "manifestOf blobs =
     \<lparr>FSLayers = map (\<lambda>_. \<lparr>BlobSum = ''sha256:00''\<rparr>) blobs,
      History = map (\<lambda>blob. \<lparr>V1Compatibility = blob\<rparr>) blobs\<rparr>"

text \<open>Two entries in the declared order, the child first.\<close>

definition linearManifest :: signedManifest where
  \<open>linearManifest = manifestOf [''{"id":"a","parent":"b"}'', ''{"id":"b"}'']\<close>

text \<open>The same two entries with the parent above its child.\<close>

definition aboveManifest :: signedManifest where
  \<open>aboveManifest = manifestOf [''{"id":"b"}'', ''{"id":"a","parent":"b"}'']\<close>

text \<open>One entry that names itself as its parent.\<close>

definition selfManifest :: signedManifest where
  \<open>selfManifest = manifestOf [''{"id":"c","parent":"c"}'']\<close>

text \<open>A child, then an entry whose \<open>parent\<close> is a number.\<close>

definition typeErrorManifest :: signedManifest where
  \<open>typeErrorManifest = manifestOf [''{"id":"a","parent":"b"}'', ''{"id":"b","parent":7}'']\<close>

text \<open>A child, then an entry that is not JSON.\<close>

definition syntaxErrorManifest :: signedManifest where
  \<open>syntaxErrorManifest = manifestOf [''{"id":"a","parent":"b"}'', ''not json'']\<close>

definition emptyManifest :: signedManifest where
  "emptyManifest = \<lparr>FSLayers = [], History = []\<rparr>"



text \<open>
  A registry with handles that are names: the repository \<open>broken\<close> cannot be opened,
  \<open>library/app\<close> has the tag \<open>latest\<close>, every other repository has no tag, and the
  listing writes two names and ends.
\<close>

definition sampleRegistry :: "(string, string) namespace" where
  "sampleRegistry =
     \<lparr>Repository = (\<lambda>name. if name = ''broken'' then Inl (Err ''repository unknown'') else Inr name),
      Manifests = (\<lambda>repo. Inr repo),
      Tags = (\<lambda>manifests. Inr (if manifests = ''library/app'' then [''latest''] else [])),
      GetByTag = (\<lambda>manifests tag. Inr linearManifest),
      Repositories = (\<lambda>repos last. (''library/app'' # ''broken'' # drop 2 repos, 2, Some EOF))\<rparr>"

section \<open>Properties of the validator\<close>

lemma scanCandidates_found:
  "\<exists>c\<in>set cs. ID c = p \<Longrightarrow> scanCandidates p i cs = p"
  by (induction cs arbitrary: i) auto

lemma scanCandidates_missing:
  "\<forall>c\<in>set cs. ID c \<noteq> p \<Longrightarrow> scanCandidates p i cs = (if cs = [] then i else ID (last cs))"
  by (induction cs arbitrary: i) auto

lemma scanCandidates_eq_iff:
  "cs \<noteq> [] \<Longrightarrow> scanCandidates p i cs = p \<longleftrightarrow> (\<exists>c\<in>set cs. ID c = p)"
proof
  assume ne: "cs \<noteq> []" and eq: "scanCandidates p i cs = p"
  show "\<exists>c\<in>set cs. ID c = p"
  proof (rule ccontr)
    assume "\<not> (\<exists>c\<in>set cs. ID c = p)"
    then have all: "\<forall>c\<in>set cs. ID c \<noteq> p" by blast
    from scanCandidates_missing [OF all, of i] ne eq have "ID (last cs) = p" by simp
    moreover from ne have "last cs \<in> set cs" by simp
    ultimately show False using all by blast
  qed
next
  assume "\<exists>c\<in>set cs. ID c = p"
  then show "scanCandidates p i cs = p" by (rule scanCandidates_found)
qed

lemma set_drop_index:
  "(\<exists>c\<in>set (drop i xs). P c) \<longleftrightarrow> (\<exists>j. i \<le> j \<and> j < length xs \<and> P (xs ! j))"
proof
  assume "\<exists>c\<in>set (drop i xs). P c"
  then obtain k where k: "k < length (drop i xs)" "P (drop i xs ! k)"
    by (auto simp: in_set_conv_nth)
  then have "i \<le> i + k \<and> i + k < length xs \<and> P (xs ! (i + k))" by auto
  then show "\<exists>j. i \<le> j \<and> j < length xs \<and> P (xs ! j)" by blast
next
  assume "\<exists>j. i \<le> j \<and> j < length xs \<and> P (xs ! j)"
  then obtain j where j: "i \<le> j" "j < length xs" "P (xs ! j)" by blast
  then have "j - i < length (drop i xs)" "drop i xs ! (j - i) = xs ! j" by auto
  with j(3) show "\<exists>c\<in>set (drop i xs). P c" by (metis nth_mem)
qed

lemma checkParent_cases:
  assumes "i < length images"
  shows "checkParent repoName images i =
     (if Parent (images ! i) \<noteq> [] \<and>
         \<not> (\<exists>j. i \<le> j \<and> j < length images \<and> ID (images ! j) = Parent (images ! i))
      then [parentLine repoName (Parent (images ! i))] else [])"
proof -
  from assms have ne: "drop i images \<noteq> []" by simp
  show ?thesis
    unfolding checkParent_def
    using scanCandidates_eq_iff [OF ne, of "Parent (images ! i)" "[]"]
      set_drop_index [of i images "\<lambda>c. ID c = Parent (images ! i)"]
    by (auto)
qed

lemma scanVisited_eq:
  "scanVisited p cs = takeWhile (\<lambda>c. ID c \<noteq> p) cs @ take 1 (dropWhile (\<lambda>c. ID c \<noteq> p) cs)"
  by (induction cs) auto

lemma scanCandidates_last_visited:
  "scanCandidates p i cs = (if scanVisited p cs = [] then i else ID (last (scanVisited p cs)))"
  by (induction cs arbitrary: i) auto

lemma scanVisited_nonempty: "cs \<noteq> [] \<Longrightarrow> scanVisited p cs \<noteq> []"
  by (cases cs) auto

lemma decodeHistory_images:
  "snd (decodeHistory um repoName h) = map (\<lambda>entry. snd (um (V1Compatibility entry) zeroImage)) h"
  by (induction h) (auto split: prod.splits)

lemma decodeHistory_out:
  "fst (decodeHistory um repoName h) =
     concat (map (\<lambda>entry. case fst (um (V1Compatibility entry) zeroImage) of
                            Some e \<Rightarrow> [unmarshalLine repoName (errorText e)] | None \<Rightarrow> []) h)"
  by (induction h) (auto split: prod.splits)

lemma checkManifest_unfold:
  "checkManifest um repoName mnfst =
     ((if length (FSLayers mnfst) = 0 \<or> length (History mnfst) = 0
       then [noLayersLine repoName] else [])
      @ (if length (FSLayers mnfst) \<noteq> length (History mnfst)
         then [mismatchLine repoName] else [])
      @ fst (decodeHistory um repoName (History mnfst))
      @ checkParents repoName (snd (decodeHistory um repoName (History mnfst))),
      None)"
  by (simp add: checkManifest_def split: prod.splits)

lemma lines_distinct:
  "unmarshalLine r e \<noteq> noLayersLine r"
  "unmarshalLine r e \<noteq> mismatchLine r"
  "parentLine r p \<noteq> noLayersLine r"
  "parentLine r p \<noteq> mismatchLine r"
  "mismatchLine r \<noteq> noLayersLine r"
  by (simp_all add: unmarshalLine_def noLayersLine_def mismatchLine_def parentLine_def)

lemma decodeHistory_lines:
  "l \<in> set (fst (decodeHistory um r h)) \<Longrightarrow> \<exists>e. l = unmarshalLine r e"
  by (auto simp: decodeHistory_out split: option.splits)

lemma checkParents_lines:
  "l \<in> set (checkParents r images) \<Longrightarrow> \<exists>p. l = parentLine r p"
  by (auto simp: checkParents_def checkParent_def split: if_splits)

lemma noLayers_in_iff:
  "noLayersLine r \<in> set (fst (checkManifest um r m))
     \<longleftrightarrow> length (FSLayers m) = 0 \<or> length (History m) = 0"
  by (auto simp: checkManifest_unfold lines_distinct lines_distinct [symmetric]
      dest!: decodeHistory_lines checkParents_lines)

lemma mismatch_in_iff:
  "mismatchLine r \<in> set (fst (checkManifest um r m))
     \<longleftrightarrow> length (FSLayers m) \<noteq> length (History m)"
  by (auto simp: checkManifest_unfold lines_distinct lines_distinct [symmetric]
      dest!: decodeHistory_lines checkParents_lines)

lemma decodeHistory_part000_eq: "decodeHistory_part000 um r h = decodeHistory um r h"
  by (induction h) (auto simp: unmarshalLine_def split: prod.splits option.splits)

lemma scanCandidates_part000_eq: "scanCandidates_part000 p i cs = scanCandidates p i cs"
  by (induction cs arbitrary: i) auto

lemma checkParents_part000_eq:
  "checkParents_part000 r images is = concat (map (checkParent r images) is)"
  by (induction "is") (auto simp: checkParent_def parentLine_def scanCandidates_part000_eq)

lemma sample_decodes:
  \<open>sampleUnmarshal ''{"id":"a","parent":"b"}'' zeroImage = (None, \<lparr>ID = ''a'', Parent = ''b''\<rparr>)\<close>
  \<open>sampleUnmarshal ''{"id":"b"}'' zeroImage = (None, \<lparr>ID = ''b'', Parent = []\<rparr>)\<close>
  \<open>sampleUnmarshal ''{"id":"c","parent":"c"}'' zeroImage = (None, \<lparr>ID = ''c'', Parent = ''c''\<rparr>)\<close>
  \<open>sampleUnmarshal ''{"id":"b","parent":7}'' zeroImage =
     (Some (Err ''json: cannot unmarshal number into Go struct field image.parent of type string''),
      \<lparr>ID = ''b'', Parent = []\<rparr>)\<close>
  \<open>sampleUnmarshal ''not json'' zeroImage =
     (Some (Err ''invalid character 'o' in literal null (expecting 'u')''), \<lparr>ID = [], Parent = []\<rparr>)\<close>
  by (simp_all add: sampleUnmarshal_def zeroImage_def)

lemma upt_2: "[0..<2] = [0, Suc 0]"
  by (simp add: numeral_2_eq_2)

text \<open>
  Claim C1. For an image at position \<open>i\<close> with a non-empty \<open>Parent\<close>, the outer loop
  prints the line "parent not below in manifest" for that position exactly when no image
  at a position \<open>j \<ge> i\<close> (position \<open>i\<close> included) has that \<open>Parent\<close> as its \<open>ID\<close>, and
  prints nothing for it otherwise; the lines of \<open>checkManifest\<close> are the two leading
  lines, the decoding lines and then the lines of the positions in order. The inner loop
  runs on the candidates in order up to and including the first whose \<open>ID\<close> is the
  \<open>Parent\<close>, and \<open>id\<close> ends as the \<open>ID\<close> of the last candidate visited.
\<close>

theorem C1_parent_finding_iff:
  assumes "decodeHistory um repoName (History mnfst) = (out, images)"
    and "i < length images"
    and "Parent (images ! i) \<noteq> []"
  shows "fst (checkManifest um repoName mnfst) =
           (if length (FSLayers mnfst) = 0 \<or> length (History mnfst) = 0
            then [noLayersLine repoName] else [])
           @ (if length (FSLayers mnfst) \<noteq> length (History mnfst)
              then [mismatchLine repoName] else [])
           @ out
           @ concat (map (checkParent repoName images) [0..<length images])
       \<and> (checkParent repoName images i = [parentLine repoName (Parent (images ! i))]
            \<longleftrightarrow> \<not> (\<exists>j. i \<le> j \<and> j < length images \<and> ID (images ! j) = Parent (images ! i)))
       \<and> (checkParent repoName images i = []
            \<longleftrightarrow> (\<exists>j. i \<le> j \<and> j < length images \<and> ID (images ! j) = Parent (images ! i)))
       \<and> scanVisited (Parent (images ! i)) (drop i images) =
             takeWhile (\<lambda>c. ID c \<noteq> Parent (images ! i)) (drop i images)
             @ take 1 (dropWhile (\<lambda>c. ID c \<noteq> Parent (images ! i)) (drop i images))
       \<and> scanVisited (Parent (images ! i)) (drop i images) \<noteq> []
       \<and> scanCandidates (Parent (images ! i)) [] (drop i images) =
             ID (last (scanVisited (Parent (images ! i)) (drop i images)))"
proof -
  from assms(2) have ne: "drop i images \<noteq> []" by simp
  have a: "fst (checkManifest um repoName mnfst) =
           (if length (FSLayers mnfst) = 0 \<or> length (History mnfst) = 0
            then [noLayersLine repoName] else [])
           @ (if length (FSLayers mnfst) \<noteq> length (History mnfst)
              then [mismatchLine repoName] else [])
           @ out
           @ concat (map (checkParent repoName images) [0..<length images])"
    using assms(1) by (simp add: checkManifest_unfold checkParents_def)
  have b: "checkParent repoName images i = [parentLine repoName (Parent (images ! i))]
            \<longleftrightarrow> \<not> (\<exists>j. i \<le> j \<and> j < length images \<and> ID (images ! j) = Parent (images ! i))"
    using assms(3) by (simp add: checkParent_cases [OF assms(2)])
  have c: "checkParent repoName images i = []
            \<longleftrightarrow> (\<exists>j. i \<le> j \<and> j < length images \<and> ID (images ! j) = Parent (images ! i))"
    using assms(3) by (auto simp: checkParent_cases [OF assms(2)])
  have d: "scanVisited (Parent (images ! i)) (drop i images) \<noteq> []"
    using ne by (rule scanVisited_nonempty)
  have e: "scanCandidates (Parent (images ! i)) [] (drop i images) =
             ID (last (scanVisited (Parent (images ! i)) (drop i images)))"
    using d by (simp add: scanCandidates_last_visited)
  from a b c d e show ?thesis using scanVisited_eq by blast
qed

theorem C1_parent_finding_iff_witness:
  "decodeHistory sampleUnmarshal ''repo'' (History aboveManifest) =
     ([], [\<lparr>ID = ''b'', Parent = []\<rparr>, \<lparr>ID = ''a'', Parent = ''b''\<rparr>])
   \<and> checkParent ''repo'' [\<lparr>ID = ''b'', Parent = []\<rparr>, \<lparr>ID = ''a'', Parent = ''b''\<rparr>] 1
       = [parentLine ''repo'' ''b'']
   \<and> fst (checkManifest sampleUnmarshal ''repo'' aboveManifest) = [parentLine ''repo'' ''b'']"
proof -
  let ?images = "[\<lparr>ID = ''b'', Parent = []\<rparr>, \<lparr>ID = ''a'', Parent = ''b''\<rparr>]"
  have h1: "decodeHistory sampleUnmarshal ''repo'' (History aboveManifest) = ([], ?images)"
    by (simp add: aboveManifest_def manifestOf_def sample_decodes)
  have h2: "1 < length ?images" by simp
  have h3: "Parent (?images ! 1) \<noteq> []" by simp
  have none: "\<not> (\<exists>j. 1 \<le> j \<and> j < length ?images \<and> ID (?images ! j) = Parent (?images ! 1))"
    by (auto simp: less_Suc_eq numeral_2_eq_2)
  have first: "checkParent ''repo'' ?images 0 = []"
    by (simp add: checkParent_def)
  from C1_parent_finding_iff [OF h1 h2 h3] none
  have "checkParent ''repo'' ?images 1 = [parentLine ''repo'' ''b'']"
    and "fst (checkManifest sampleUnmarshal ''repo'' aboveManifest) =
           concat (map (checkParent ''repo'' ?images) [0..<length ?images])"
    by (simp_all add: aboveManifest_def manifestOf_def)
  with h1 first show ?thesis by (simp add: upt_2)
qed

text \<open>
  Claim C9. The lines of \<open>checkManifest\<close> are the two leading lines, the decoding lines
  and the lines of the parent check for the positions in order. An image whose non-empty
  \<open>Parent\<close> is its own \<open>ID\<close> gets no line from the parent check, at any position, the
  last included. At the last position an image with a non-empty \<open>Parent\<close> gets no line
  only in that case: otherwise the line "parent not below in manifest" with its
  \<open>Parent\<close> is the last line that \<open>checkManifest\<close> prints.
\<close>

theorem C9_self_parent_no_finding:
  assumes "decodeHistory um repoName (History mnfst) = (out, images)"
    and "i < length images"
    and "Parent (images ! i) \<noteq> []"
  shows "fst (checkManifest um repoName mnfst) =
           (if length (FSLayers mnfst) = 0 \<or> length (History mnfst) = 0
            then [noLayersLine repoName] else [])
           @ (if length (FSLayers mnfst) \<noteq> length (History mnfst)
              then [mismatchLine repoName] else [])
           @ out
           @ concat (map (checkParent repoName images) [0..<length images])
       \<and> (Parent (images ! i) = ID (images ! i) \<longrightarrow> checkParent repoName images i = [])
       \<and> (Suc i = length images \<longrightarrow>
            (checkParent repoName images i = [] \<longleftrightarrow> Parent (images ! i) = ID (images ! i))
            \<and> (Parent (images ! i) \<noteq> ID (images ! i) \<longrightarrow>
                 checkParent repoName images i = [parentLine repoName (Parent (images ! i))])
            \<and> fst (checkManifest um repoName mnfst) =
                 (if length (FSLayers mnfst) = 0 \<or> length (History mnfst) = 0
                  then [noLayersLine repoName] else [])
                 @ (if length (FSLayers mnfst) \<noteq> length (History mnfst)
                    then [mismatchLine repoName] else [])
                 @ out
                 @ concat (map (checkParent repoName images) [0..<i])
                 @ (if Parent (images ! i) = ID (images ! i) then []
                    else [parentLine repoName (Parent (images ! i))]))"
proof -
  have whole: "fst (checkManifest um repoName mnfst) =
           (if length (FSLayers mnfst) = 0 \<or> length (History mnfst) = 0
            then [noLayersLine repoName] else [])
           @ (if length (FSLayers mnfst) \<noteq> length (History mnfst)
              then [mismatchLine repoName] else [])
           @ out
           @ concat (map (checkParent repoName images) [0..<length images])"
    using assms(1) by (simp add: checkManifest_unfold checkParents_def)
  have self: "checkParent repoName images i = []" if "Parent (images ! i) = ID (images ! i)"
    using that assms(2) by (auto simp: checkParent_cases)
  have only: "j = i" if "Suc i = length images" "i \<le> j" "j < length images" for j
    using that by simp
  have lastpos: "checkParent repoName images i =
      (if Parent (images ! i) = ID (images ! i) then []
       else [parentLine repoName (Parent (images ! i))])"
    if "Suc i = length images"
    using assms(2,3) by (auto simp: checkParent_cases dest: only [OF that])
  have lastout: "fst (checkManifest um repoName mnfst) =
                 (if length (FSLayers mnfst) = 0 \<or> length (History mnfst) = 0
                  then [noLayersLine repoName] else [])
                 @ (if length (FSLayers mnfst) \<noteq> length (History mnfst)
                    then [mismatchLine repoName] else [])
                 @ out
                 @ concat (map (checkParent repoName images) [0..<i])
                 @ (if Parent (images ! i) = ID (images ! i) then []
                    else [parentLine repoName (Parent (images ! i))])"
    if "Suc i = length images"
    unfolding whole that [symmetric] using lastpos [OF that] by simp
  have iff: "checkParent repoName images i = [] \<longleftrightarrow> Parent (images ! i) = ID (images ! i)"
    if "Suc i = length images"
    using lastpos [OF that] by simp
  have line: "checkParent repoName images i = [parentLine repoName (Parent (images ! i))]"
    if "Suc i = length images" "Parent (images ! i) \<noteq> ID (images ! i)"
    using lastpos [OF that(1)] that(2) by simp
  from whole self iff line lastout show ?thesis by blast
qed

theorem C9_self_parent_no_finding_witness:
  "decodeHistory sampleUnmarshal ''repo'' (History selfManifest) = ([], [\<lparr>ID = ''c'', Parent = ''c''\<rparr>])
   \<and> checkParent ''repo'' [\<lparr>ID = ''c'', Parent = ''c''\<rparr>] 0 = []
   \<and> fst (checkManifest sampleUnmarshal ''repo'' selfManifest) = []"
proof -
  let ?images = "[\<lparr>ID = ''c'', Parent = ''c''\<rparr>]"
  have h1: "decodeHistory sampleUnmarshal ''repo'' (History selfManifest) = ([], ?images)"
    by (simp add: selfManifest_def manifestOf_def sample_decodes)
  have h2: "0 < length ?images" by simp
  have h3: "Parent (?images ! 0) \<noteq> []" by simp
  note c9 = C9_self_parent_no_finding [OF h1 h2 h3]
  have self: "Parent (?images ! 0) = ID (?images ! 0)" by simp
  have lastp: "Suc 0 = length ?images" by simp
  from c9 [THEN conjunct2, THEN conjunct1, rule_format, OF self]
  have a: "checkParent ''repo'' ?images 0 = []" .
  from c9 [THEN conjunct2, THEN conjunct2, rule_format, OF lastp, THEN conjunct2, THEN conjunct2]
  have b: "fst (checkManifest sampleUnmarshal ''repo'' selfManifest) = []"
    by (simp add: selfManifest_def manifestOf_def)
  from h1 a b show ?thesis by (intro conjI)
qed

text \<open>
  Claim C5. \<open>checkManifest\<close> prints "no layers present" exactly when the manifest has
  no layer or no history entry, and prints "mismatched layers and history" exactly when
  the two counts differ; with no layer and no history entry it prints the first line and
  nothing else.
\<close>

theorem C5_leading_findings:
  "(noLayersLine repoName \<in> set (fst (checkManifest um repoName mnfst))
      \<longleftrightarrow> length (FSLayers mnfst) = 0 \<or> length (History mnfst) = 0)
   \<and> (mismatchLine repoName \<in> set (fst (checkManifest um repoName mnfst))
      \<longleftrightarrow> length (FSLayers mnfst) \<noteq> length (History mnfst))
   \<and> (length (FSLayers mnfst) = 0 \<and> length (History mnfst) = 0 \<longrightarrow>
        fst (checkManifest um repoName mnfst) = [noLayersLine repoName]
        \<and> mismatchLine repoName \<notin> set (fst (checkManifest um repoName mnfst)))"
proof -
  have zero: "fst (checkManifest um repoName mnfst) = [noLayersLine repoName]"
    if "length (FSLayers mnfst) = 0 \<and> length (History mnfst) = 0"
    using that by (simp add: checkManifest_unfold checkParents_def)
  show ?thesis
    using noLayers_in_iff [of repoName um mnfst] mismatch_in_iff [of repoName um mnfst] zero
    by (simp add: lines_distinct)
qed

theorem C5_leading_findings_witness:
  "length (FSLayers emptyManifest) = 0 \<and> length (History emptyManifest) = 0
   \<and> fst (checkManifest sampleUnmarshal ''repo'' emptyManifest) = [noLayersLine ''repo'']
   \<and> mismatchLine ''repo'' \<notin> set (fst (checkManifest sampleUnmarshal ''repo'' emptyManifest))"
proof -
  have h: "length (FSLayers emptyManifest) = 0 \<and> length (History emptyManifest) = 0"
    by (simp add: emptyManifest_def)
  from C5_leading_findings [of "''repo''" sampleUnmarshal emptyManifest] h
  have "fst (checkManifest sampleUnmarshal ''repo'' emptyManifest) = [noLayersLine ''repo'']
        \<and> mismatchLine ''repo'' \<notin> set (fst (checkManifest sampleUnmarshal ''repo'' emptyManifest))"
    by blast
  with h show ?thesis by blast
qed

lemma linear_chain_checkParent:
  assumes chain: "\<forall>i. Suc i < length images \<longrightarrow> Parent (images ! i) = ID (images ! Suc i)"
    and root: "Parent (last images) = []"
    and i: "i < length images"
  shows "checkParent repoName images i = []"
proof (cases "Suc i < length images")
  case True
  with chain have "Parent (images ! i) = ID (images ! Suc i)" by blast
  with True have "\<exists>j. i \<le> j \<and> j < length images \<and> ID (images ! j) = Parent (images ! i)"
    by (intro exI [of _ "Suc i"]) simp
  then show ?thesis using i by (simp add: checkParent_cases)
next
  case False
  with i have "i = length images - 1" and "images \<noteq> []" by auto
  then have "images ! i = last images" by (simp add: last_conv_nth)
  with root show ?thesis by (simp add: checkParent_def)
qed

text \<open>
  Claim C4. When the layers and the history entries are equally many and not zero, every
  entry decodes without an error, each image but the last has the next image's \<open>ID\<close> as
  its \<open>Parent\<close> and the last image has the empty \<open>Parent\<close>, \<open>checkManifest\<close> prints
  nothing and returns \<open>nil\<close>.
\<close>

theorem C4_linear_chain_no_findings:
  assumes "length (FSLayers mnfst) = length (History mnfst)"
    and "length (FSLayers mnfst) \<noteq> 0" and "length (History mnfst) \<noteq> 0"
    and "\<forall>entry \<in> set (History mnfst). fst (um (V1Compatibility entry) zeroImage) = None"
    and "snd (decodeHistory um repoName (History mnfst)) = images"
    and "\<forall>i. Suc i < length images \<longrightarrow> Parent (images ! i) = ID (images ! Suc i)"
    and "Parent (last images) = []"
  shows "checkManifest um repoName mnfst = ([], None)"
proof -
  have out: "fst (decodeHistory um repoName (History mnfst)) = []"
    using assms(4) by (simp add: decodeHistory_out)
  have "checkParents repoName images = []"
    using linear_chain_checkParent [OF assms(6) assms(7)]
    by (simp add: checkParents_def)
  with out assms(1,2,3,5) show ?thesis by (simp add: checkManifest_unfold)
qed

theorem C4_linear_chain_no_findings_witness:
  "length (FSLayers linearManifest) = length (History linearManifest)
   \<and> length (History linearManifest) = 2
   \<and> snd (decodeHistory sampleUnmarshal ''repo'' (History linearManifest)) =
       [\<lparr>ID = ''a'', Parent = ''b''\<rparr>, \<lparr>ID = ''b'', Parent = []\<rparr>]
   \<and> checkManifest sampleUnmarshal ''repo'' linearManifest = ([], None)"
proof -
  let ?images = "[\<lparr>ID = ''a'', Parent = ''b''\<rparr>, \<lparr>ID = ''b'', Parent = []\<rparr>]"
  have h1: "length (FSLayers linearManifest) = length (History linearManifest)"
    by (simp add: linearManifest_def manifestOf_def)
  have h2: "length (FSLayers linearManifest) \<noteq> 0" and h3: "length (History linearManifest) \<noteq> 0"
    and len: "length (History linearManifest) = 2"
    by (simp_all add: linearManifest_def manifestOf_def)
  have h4: "\<forall>entry \<in> set (History linearManifest).
              fst (sampleUnmarshal (V1Compatibility entry) zeroImage) = None"
    by (simp add: linearManifest_def manifestOf_def sample_decodes)
  have h5: "snd (decodeHistory sampleUnmarshal ''repo'' (History linearManifest)) = ?images"
    by (simp add: linearManifest_def manifestOf_def sample_decodes)
  have h6: "\<forall>i. Suc i < length ?images \<longrightarrow> Parent (?images ! i) = ID (?images ! Suc i)"
    by simp
  have h7: "Parent (last ?images) = []" by simp
  from C4_linear_chain_no_findings [OF h1 h2 h3 h4 h5 h6 h7] h1 len h5 show ?thesis by simp
qed

text \<open>
  Claim C10. The \<open>checkManifest\<close> of \<^verbatim>\<open>src/unnamed/part_000\<close> and the one of
  \<^verbatim>\<open>src/main.go\<close> print the same lines in the same order and both return \<open>nil\<close>,
  for every repository name and every manifest.
\<close>

theorem C10_validators_equal:
  "checkManifest_part000 um repoName mnfst = checkManifest um repoName mnfst
   \<and> snd (checkManifest_part000 um repoName mnfst) = None
   \<and> snd (checkManifest um repoName mnfst) = None"
  by (simp add: checkManifest_part000_def checkManifest_def decodeHistory_part000_eq
      checkParents_part000_eq checkParents_def noLayersLine_def mismatchLine_def
      split: prod.splits)

text \<open>
  Claim C3, as the code has it. \<open>checkManifest\<close> returns \<open>nil\<close> for every repository
  name and every manifest. It records one image for every history entry, namely \<open>im\<close> as
  \<open>json.Unmarshal\<close> left it, and runs the parent check on every position. When the
  decoding of an entry fails it prints the line "json unmarshal error" with the text of
  the error and goes on with the remaining entries; the image recorded for that entry
  has an empty \<open>ID\<close> and an empty \<open>Parent\<close> when the decoder wrote no field, which is
  not so for every failure (see the counterexample below).
\<close>

theorem C3_validate_never_fails:
  "snd (checkManifest um repoName mnfst) = None
   \<and> length (snd (decodeHistory um repoName (History mnfst))) = length (History mnfst)
   \<and> fst (checkManifest um repoName mnfst) =
        (if length (FSLayers mnfst) = 0 \<or> length (History mnfst) = 0
         then [noLayersLine repoName] else [])
        @ (if length (FSLayers mnfst) \<noteq> length (History mnfst)
           then [mismatchLine repoName] else [])
        @ fst (decodeHistory um repoName (History mnfst))
        @ concat (map (checkParent repoName (snd (decodeHistory um repoName (History mnfst))))
                   [0..<length (History mnfst)])
   \<and> (\<forall>k<length (History mnfst).
         snd (decodeHistory um repoName (History mnfst)) ! k =
           snd (um (V1Compatibility (History mnfst ! k)) zeroImage)
         \<and> (\<forall>e. fst (um (V1Compatibility (History mnfst ! k)) zeroImage) = Some e \<longrightarrow>
               unmarshalLine repoName (errorText e) \<in> set (fst (decodeHistory um repoName (History mnfst)))
               \<and> unmarshalLine repoName (errorText e) \<in> set (fst (checkManifest um repoName mnfst))
               \<and> (snd (um (V1Compatibility (History mnfst ! k)) zeroImage) = zeroImage \<longrightarrow>
                    ID (snd (decodeHistory um repoName (History mnfst)) ! k) = []
                    \<and> Parent (snd (decodeHistory um repoName (History mnfst)) ! k) = [])))"
proof -
  let ?h = "History mnfst"
  have len: "length (snd (decodeHistory um repoName ?h)) = length ?h"
    by (simp add: decodeHistory_images)
  have nth: "snd (decodeHistory um repoName ?h) ! k = snd (um (V1Compatibility (?h ! k)) zeroImage)"
    if "k < length ?h" for k
    using that by (simp add: decodeHistory_images)
  have line: "unmarshalLine repoName (errorText e) \<in> set (fst (decodeHistory um repoName ?h))"
    if "k < length ?h" and "fst (um (V1Compatibility (?h ! k)) zeroImage) = Some e" for k e
  proof -
    from that(1) have "?h ! k \<in> set ?h" by simp
    with that(2) show ?thesis by (force simp: decodeHistory_out)
  qed
  have line': "unmarshalLine repoName (errorText e) \<in> set (fst (checkManifest um repoName mnfst))"
    if "k < length ?h" and "fst (um (V1Compatibility (?h ! k)) zeroImage) = Some e" for k e
    using line [OF that] by (simp add: checkManifest_unfold)
  have zero: "ID (snd (decodeHistory um repoName ?h) ! k) = []
              \<and> Parent (snd (decodeHistory um repoName ?h) ! k) = []"
    if "k < length ?h" and "snd (um (V1Compatibility (?h ! k)) zeroImage) = zeroImage" for k
    using nth [OF that(1)] that(2) by (simp add: zeroImage_def)
  have out: "fst (checkManifest um repoName mnfst) =
        (if length (FSLayers mnfst) = 0 \<or> length (History mnfst) = 0
         then [noLayersLine repoName] else [])
        @ (if length (FSLayers mnfst) \<noteq> length (History mnfst)
           then [mismatchLine repoName] else [])
        @ fst (decodeHistory um repoName (History mnfst))
        @ concat (map (checkParent repoName (snd (decodeHistory um repoName (History mnfst))))
                   [0..<length (History mnfst)])"
    by (simp add: checkManifest_unfold checkParents_def len)
  have ret: "snd (checkManifest um repoName mnfst) = None"
    by (simp add: checkManifest_unfold)
  from ret len out nth line line' zero show ?thesis by blast
qed

lemma typeError_decode:
  "decodeHistory sampleUnmarshal ''repo'' (History typeErrorManifest) =
     ([unmarshalLine ''repo''
         ''json: cannot unmarshal number into Go struct field image.parent of type string''],
      [\<lparr>ID = ''a'', Parent = ''b''\<rparr>, \<lparr>ID = ''b'', Parent = []\<rparr>])"
  by (simp add: typeErrorManifest_def manifestOf_def sample_decodes)

lemma syntaxError_decode:
  "decodeHistory sampleUnmarshal ''repo'' (History syntaxErrorManifest) =
     ([unmarshalLine ''repo'' ''invalid character 'o' in literal null (expecting 'u')''],
      [\<lparr>ID = ''a'', Parent = ''b''\<rparr>, \<lparr>ID = [], Parent = []\<rparr>])"
  by (simp add: syntaxErrorManifest_def manifestOf_def sample_decodes)

lemma typeError_run:
  "checkManifest sampleUnmarshal ''repo'' typeErrorManifest =
     ([unmarshalLine ''repo''
         ''json: cannot unmarshal number into Go struct field image.parent of type string''],
      None)"
proof -
  have len: "length (FSLayers typeErrorManifest) = 2" "length (History typeErrorManifest) = 2"
    by (simp_all add: typeErrorManifest_def manifestOf_def)
  have p0: "checkParent ''repo'' [\<lparr>ID = ''a'', Parent = ''b''\<rparr>, \<lparr>ID = ''b'', Parent = []\<rparr>] 0 = []"
    and p1: "checkParent ''repo'' [\<lparr>ID = ''a'', Parent = ''b''\<rparr>, \<lparr>ID = ''b'', Parent = []\<rparr>] (Suc 0) = []"
    by (simp_all add: checkParent_def)
  show ?thesis
    by (simp add: checkManifest_unfold typeError_decode len checkParents_def upt_2 p0 p1)
qed

theorem C3_validate_never_fails_witness:
  "length (History syntaxErrorManifest) = 2
   \<and> fst (sampleUnmarshal (V1Compatibility (History syntaxErrorManifest ! 1)) zeroImage) =
       Some (Err ''invalid character 'o' in literal null (expecting 'u')'')
   \<and> snd (sampleUnmarshal (V1Compatibility (History syntaxErrorManifest ! 1)) zeroImage) = zeroImage
   \<and> unmarshalLine ''repo'' (errorText (Err ''invalid character 'o' in literal null (expecting 'u')''))
       \<in> set (fst (checkManifest sampleUnmarshal ''repo'' syntaxErrorManifest))
   \<and> ID (snd (decodeHistory sampleUnmarshal ''repo'' (History syntaxErrorManifest)) ! 1) = []
   \<and> Parent (snd (decodeHistory sampleUnmarshal ''repo'' (History syntaxErrorManifest)) ! 1) = []
   \<and> snd (checkManifest sampleUnmarshal ''repo'' syntaxErrorManifest) = None"
proof -
  have len: "length (History syntaxErrorManifest) = 2"
    by (simp add: syntaxErrorManifest_def manifestOf_def)
  then have k: "1 < length (History syntaxErrorManifest)" by simp
  have err: "fst (sampleUnmarshal (V1Compatibility (History syntaxErrorManifest ! 1)) zeroImage) =
       Some (Err ''invalid character 'o' in literal null (expecting 'u')'')"
    by (simp add: syntaxErrorManifest_def manifestOf_def sample_decodes)
  have im: "snd (sampleUnmarshal (V1Compatibility (History syntaxErrorManifest ! 1)) zeroImage) = zeroImage"
    by (simp add: syntaxErrorManifest_def manifestOf_def sample_decodes, simp add: zeroImage_def)
  note c3 = C3_validate_never_fails [of sampleUnmarshal "''repo''" syntaxErrorManifest]
  note ret = c3 [THEN conjunct1]
  note at_k = c3 [THEN conjunct2, THEN conjunct2, THEN conjunct2, rule_format, OF k]
  note at_err = at_k [THEN conjunct2, rule_format, OF err]
  note line = at_err [THEN conjunct2, THEN conjunct1]
  note empty = at_err [THEN conjunct2, THEN conjunct2, rule_format, OF im]
  show ?thesis
    by (intro conjI) (rule len err im line empty [THEN conjunct1] empty [THEN conjunct2] ret)+
qed

text \<open>
  The entry \<open>{"id":"b","parent":7}\<close> fails to decode, and the image recorded for it
  has the \<open>ID\<close> \<open>b\<close>: the child above it finds its parent there, and the only line
  printed is the one of the decoding error.
\<close>

theorem C3_empty_image_counterexample:
  "fst (sampleUnmarshal (V1Compatibility (History typeErrorManifest ! 1)) zeroImage) \<noteq> None
   \<and> ID (snd (decodeHistory sampleUnmarshal ''repo'' (History typeErrorManifest)) ! 1) = ''b''
   \<and> ID (snd (decodeHistory sampleUnmarshal ''repo'' (History typeErrorManifest)) ! 1) \<noteq> []
   \<and> checkManifest sampleUnmarshal ''repo'' typeErrorManifest =
       ([unmarshalLine ''repo''
           ''json: cannot unmarshal number into Go struct field image.parent of type string''],
        None)
   \<and> parentLine ''repo'' ''b'' \<notin> set (fst (checkManifest sampleUnmarshal ''repo'' typeErrorManifest))"
proof -
  have err: "fst (sampleUnmarshal (V1Compatibility (History typeErrorManifest ! 1)) zeroImage) \<noteq> None"
    by (simp add: typeErrorManifest_def manifestOf_def sample_decodes)
  have id1: "ID (snd (decodeHistory sampleUnmarshal ''repo'' (History typeErrorManifest)) ! 1) = ''b''"
    by (simp add: typeError_decode)
  then have id2: "ID (snd (decodeHistory sampleUnmarshal ''repo'' (History typeErrorManifest)) ! 1) \<noteq> []"
    by simp
  have differ: "parentLine ''repo'' ''b'' \<noteq> unmarshalLine ''repo''
           ''json: cannot unmarshal number into Go struct field image.parent of type string''"
    by (simp add: parentLine_def unmarshalLine_def)
  have absent: "parentLine ''repo'' ''b''
      \<notin> set (fst (checkManifest sampleUnmarshal ''repo'' typeErrorManifest))"
    unfolding typeError_run using differ by simp
  show ?thesis
    by (intro conjI) (rule err id1 id2 typeError_run absent)+
qed

theorem C10_validators_equal_witness:
  "checkManifest_part000 sampleUnmarshal ''repo'' typeErrorManifest =
     ([unmarshalLine ''repo''
         ''json: cannot unmarshal number into Go struct field image.parent of type string''],
      None)"
  unfolding C10_validators_equal [of sampleUnmarshal "''repo''" typeErrorManifest, THEN conjunct1]
  by (rule typeError_run)

section \<open>Properties of the list of repositories\<close>

lemma readRepos_eq:
  "readRepos repos lines =
     repos @ map (\<lambda>l. if hd l = CHR ''+'' then tl l else l) (filter (\<lambda>l. l \<noteq> []) lines)"
  by (induction lines arbitrary: repos) auto

lemma readRepos_append:
  "readRepos repos (pre @ post) = readRepos (readRepos repos pre) post"
  by (simp add: readRepos_eq)











text \<open>
  Claim C6. Without a path to a list, \<open>main\<close> asks the registry to fill a buffer of
  500000 names. An error other than \<open>io.EOF\<close> is a panic; otherwise a count of exactly
  500000 is the panic "too many repositories"; otherwise a count \<open>n\<close> with
  \<open>0 \<le> n < 500000\<close> gives the first \<open>n\<close> names of the buffer as the list.
\<close>

theorem C6_enumeration:
  assumes "Repositories registry (replicate (nat maxRepos) []) [] = (repos, n, err)"
  shows "maxRepos = 500000
       \<and> length (replicate (nat maxRepos) ([] :: string)) = 500000
       \<and> resolveRepos registry openRepos [] = enumerateRepos registry
       \<and> (\<forall>e. err = Some e \<and> e \<noteq> EOF \<longrightarrow>
            enumerateRepos registry = Inl (''unexpected error getting repo: '' @ errorText e))
       \<and> ((err = None \<or> err = Some EOF) \<and> n = 500000 \<longrightarrow>
            enumerateRepos registry = Inl ''too many repositories'')
       \<and> ((err = None \<or> err = Some EOF) \<and> 0 \<le> n \<and> n < 500000 \<longrightarrow>
            enumerateRepos registry = Inr (take (nat n) repos))"
  using assms by (auto simp: resolveRepos_def enumerateRepos_def maxRepos_def)

theorem C6_enumeration_witness:
  "enumerateRepos sampleRegistry = Inr [''library/app'', ''broken'']
   \<and> enumerateRepos (sampleRegistry\<lparr>Repositories := (\<lambda>repos last. (repos, 500000, None))\<rparr>)
       = Inl ''too many repositories''
   \<and> enumerateRepos (sampleRegistry\<lparr>Repositories := (\<lambda>repos last. (repos, 0, Some (Err ''storage down'')))\<rparr>)
       = Inl ''unexpected error getting repo: storage down''"
proof -
  let ?buf = "replicate (nat maxRepos) ([] :: string)"
  have h1: "Repositories sampleRegistry ?buf [] = (''library/app'' # ''broken'' # drop 2 ?buf, 2, Some EOF)"
    by (simp add: sampleRegistry_def)
  let ?full = "sampleRegistry\<lparr>Repositories := (\<lambda>repos last. (repos, 500000, None))\<rparr>"
  have h2: "Repositories ?full ?buf [] = (?buf, 500000, None)" by simp
  let ?down = "sampleRegistry\<lparr>Repositories := (\<lambda>repos last. (repos, 0, Some (Err ''storage down'')))\<rparr>"
  have h3: "Repositories ?down ?buf [] = (?buf, 0, Some (Err ''storage down''))" by simp
  have a: "enumerateRepos sampleRegistry = Inr [''library/app'', ''broken'']"
    using C6_enumeration [OF h1, THEN conjunct2, THEN conjunct2, THEN conjunct2, THEN conjunct2,
        THEN conjunct2]
    by simp
  have b: "enumerateRepos ?full = Inl ''too many repositories''"
    using C6_enumeration [OF h2, THEN conjunct2, THEN conjunct2, THEN conjunct2, THEN conjunct2,
        THEN conjunct1]
    by simp
  have c: "enumerateRepos ?down = Inl ''unexpected error getting repo: storage down''"
    using C6_enumeration [OF h3, THEN conjunct2, THEN conjunct2, THEN conjunct2, THEN conjunct1,
        rule_format, of "Err ''storage down''"]
    by simp
  from a b c show ?thesis by (intro conjI)
qed

section \<open>Properties of the scan\<close>

lemma sum_list_map_update:
  fixes f :: "'a \<Rightarrow> 'b::comm_monoid_add"
  shows "i < length xs \<Longrightarrow>
    sum_list (map f (xs[i := y])) + f (xs ! i) = sum_list (map f xs) + f y"
proof (induction xs arbitrary: i)
  case Nil
  then show ?case by simp
next
  case (Cons x xs)
  show ?case
  proof (cases i)
    case 0
    then show ?thesis by (simp add: ac_simps)
  next
    case (Suc j)
    with Cons.prems have "j < length xs" by simp
    from Cons.IH [OF this] Suc show ?thesis
      by (simp add: add.assoc)
  qed
qed

lemma reachable_init: "reachable um registry repos (initPool repos)"
  by (simp add: reachable_def)

lemma reachable_step:
  "reachable um registry repos s \<Longrightarrow> step um registry s s' \<Longrightarrow> reachable um registry repos s'"
  by (simp add: reachable_def)

lemma reachable_induct [consumes 1, case_names init step]:
  assumes "reachable um registry repos s"
    and "P (initPool repos)"
    and "\<And>s s'. reachable um registry repos s \<Longrightarrow> P s \<Longrightarrow> step um registry s s' \<Longrightarrow> P s'"
  shows "P s"
  using assms(1) unfolding reachable_def
proof (induction rule: rtranclp_induct)
  case base
  show ?case by (rule assms(2))
next
  case (step y z)
  then show ?case using assms(3) [of y z] by (simp add: reachable_def)
qed

lemma reachable_called_queue:
  "reachable um registry repos s \<Longrightarrow> called s @ queue s = repos"
proof (induction rule: reachable_induct)
  case init
  show ?case by (simp add: initPool_def)
next
  case (step s s')
  from step.hyps(2) step.IH show ?case by (cases rule: step.cases) auto
qed

lemma reachable_workers:
  "reachable um registry repos s \<Longrightarrow> length (workers s) = 30"
proof (induction rule: reachable_induct)
  case init
  show ?case by (simp add: initPool_def)
next
  case (step s s')
  from step.hyps(2) step.IH show ?case by (cases rule: step.cases) auto
qed

lemma reachable_closed:
  "reachable um registry repos s \<Longrightarrow>
     (closed s \<longrightarrow> queue s = []) \<and> (\<not> closed s \<longrightarrow> Exited \<notin> set (workers s))"
proof (induction rule: reachable_induct)
  case init
  show ?case by (simp add: initPool_def)
next
  case (step s s')
  from step.hyps(2) step.IH show ?case
    by (cases rule: step.cases) (auto dest!: set_update_subset_insert [THEN subsetD])
qed

lemma reachable_written:
  "reachable um registry repos s \<Longrightarrow>
     mset (written s) + sum_list (map pendingWrites (workers s)) =
       sum_list (map (\<lambda>repoName. mset (workerBody um registry repoName)) (called s))"
proof (induction rule: reachable_induct)
  case init
  have "sum_list (map pendingWrites (replicate n Waiting)) = {#}" for n
    by (induction n) simp_all
  then show ?case by (simp add: initPool_def)
next
  case (step s s')
  from step.hyps(2) show ?case
  proof (cases rule: step.cases)
    case (receive_step repoName rest w)
    from sum_list_map_update [of w "workers s" pendingWrites "Busy (workerBody um registry repoName)"]
      receive_step(3,4)
    have "sum_list (map pendingWrites ((workers s)[w := Busy (workerBody um registry repoName)]))
            = sum_list (map pendingWrites (workers s)) + mset (workerBody um registry repoName)"
      by simp
    with step.IH receive_step(1) show ?thesis by (simp add: ac_simps)
  next
    case (write_step w e es)
    from sum_list_map_update [of w "workers s" pendingWrites "Busy es"] write_step(2,3)
    have "sum_list (map pendingWrites ((workers s)[w := Busy es])) + add_mset e (mset es)
            = sum_list (map pendingWrites (workers s)) + mset es"
      by simp
    then have "add_mset e (sum_list (map pendingWrites ((workers s)[w := Busy es])))
            = sum_list (map pendingWrites (workers s))"
      by (simp add: ac_simps)
    with step.IH write_step(1) show ?thesis by (simp add: ac_simps) (metis union_mset_add_mset_right)
  next
    case (again_step w)
    from sum_list_map_update [of w "workers s" pendingWrites Waiting] again_step(2,3)
    have "sum_list (map pendingWrites ((workers s)[w := Waiting]))
            = sum_list (map pendingWrites (workers s))"
      by simp
    with step.IH again_step(1) show ?thesis by simp
  next
    case close_step
    with step.IH show ?thesis by simp
  next
    case (exit_step w)
    from sum_list_map_update [of w "workers s" pendingWrites Exited] exit_step(3,4)
    have "sum_list (map pendingWrites ((workers s)[w := Exited]))
            = sum_list (map pendingWrites (workers s))"
      by simp
    with step.IH exit_step(1) show ?thesis by simp
  qed
qed

lemma finished_pending:
  "finished s \<Longrightarrow> sum_list (map pendingWrites (workers s)) = {#}"
proof -
  have "list_all (\<lambda>w. w = Exited) ws \<Longrightarrow> sum_list (map pendingWrites ws) = {#}" for ws
    by (induction ws) auto
  then show "finished s \<Longrightarrow> ?thesis" by (simp add: finished_def)
qed

lemma step_decreases:
  assumes "step um registry s s'"
  shows "stepsLeft um registry s' < stepsLeft um registry s"
  using assms
proof (cases rule: step.cases)
  case (receive_step repoName rest w)
  from sum_list_map_update [of w "workers s" workerSteps "Busy (workerBody um registry repoName)"]
    receive_step(3,4)
  have "sum_list (map workerSteps ((workers s)[w := Busy (workerBody um registry repoName)])) + 1
          = sum_list (map workerSteps (workers s)) + (length (workerBody um registry repoName) + 2)"
    by simp
  with receive_step(1,2) show ?thesis by (simp add: stepsLeft_def)
next
  case (write_step w e es)
  from sum_list_map_update [of w "workers s" workerSteps "Busy es"] write_step(2,3)
  have "sum_list (map workerSteps ((workers s)[w := Busy es])) + (length es + 3)
          = sum_list (map workerSteps (workers s)) + (length es + 2)"
    by simp
  with write_step(1) show ?thesis by (simp add: stepsLeft_def)
next
  case (again_step w)
  from sum_list_map_update [of w "workers s" workerSteps Waiting] again_step(2,3)
  have "sum_list (map workerSteps ((workers s)[w := Waiting])) + 2
          = sum_list (map workerSteps (workers s)) + 1"
    by simp
  with again_step(1) show ?thesis by (simp add: stepsLeft_def)
next
  case close_step
  then show ?thesis by (simp add: stepsLeft_def)
next
  case (exit_step w)
  from sum_list_map_update [of w "workers s" workerSteps Exited] exit_step(3,4)
  have "sum_list (map workerSteps ((workers s)[w := Exited])) + 1
          = sum_list (map workerSteps (workers s))"
    by simp
  with exit_step(1) show ?thesis by (simp add: stepsLeft_def)
qed

lemma reachable_progress:
  assumes reach: "reachable um registry repos s" and nf: "\<not> finished s"
  shows "\<exists>s'. step um registry s s'"
proof -
  note len = reachable_workers [OF reach]
  note cl = reachable_closed [OF reach]
  show ?thesis
  proof (cases "\<exists>w<length (workers s). \<exists>es. workers s ! w = Busy es")
    case True
    then obtain w es where w: "w < length (workers s)" "workers s ! w = Busy es" by blast
    show ?thesis
    proof (cases es)
      case Nil
      with w show ?thesis by (blast intro: step.again_step)
    next
      case (Cons e es')
      with w show ?thesis by (blast intro: step.write_step)
    qed
  next
    case False
    then have idle: "\<And>w. w < length (workers s) \<Longrightarrow> workers s ! w = Waiting \<or> workers s ! w = Exited"
      by (metis worker.exhaust)
    show ?thesis
    proof (cases "closed s")
      case True
      with nf obtain w where w: "w < length (workers s)" "workers s ! w \<noteq> Exited"
        by (auto simp: finished_def list_all_length)
      with idle have "workers s ! w = Waiting" by blast
      with True w(1) show ?thesis by (blast intro: step.exit_step)
    next
      case notclosed: False
      show ?thesis
      proof (cases "queue s")
        case Nil
        with notclosed show ?thesis by (blast intro: step.close_step)
      next
        case (Cons repoName rest)
        from len have w0: "0 < length (workers s)" by simp
        from notclosed cl have "Exited \<notin> set (workers s)" by blast
        with w0 have "workers s ! 0 \<noteq> Exited" by (metis nth_mem)
        with idle [OF w0] have "workers s ! 0 = Waiting" by blast
        with Cons w0 show ?thesis by (blast intro: step.receive_step)
      qed
    qed
  qed
qed

lemma reachable_completes:
  "reachable um registry repos s \<Longrightarrow>
     \<exists>s'. rtranclp (step um registry) s s' \<and> finished s'"
proof (induction "stepsLeft um registry s" arbitrary: s rule: less_induct)
  case less
  show ?case
  proof (cases "finished s")
    case True
    then show ?thesis by blast
  next
    case False
    from reachable_progress [OF less.prems False] obtain s1 where s1: "step um registry s s1" by blast
    from less.hyps [OF step_decreases [OF s1] reachable_step [OF less.prems s1]]
    obtain s' where "rtranclp (step um registry) s1 s'" "finished s'" by blast
    with s1 show ?thesis by (blast intro: converse_rtranclp_into_rtranclp)
  qed
qed

lemma run_exists:
  "\<exists>s. reachable um registry repos s \<and> finished s"
  using reachable_completes [OF reachable_init, of um registry repos]
  by (simp add: reachable_def)

lemma checkTags_abandon:
  assumes "GetByTag registry manifests tag = Inl e"
    and "\<forall>t\<in>set pre. \<exists>mnfst. GetByTag registry manifests t = Inr mnfst"
  shows "checkTags um registry manifests repoName (pre @ tag # post) =
           (fst (checkTags um registry manifests repoName pre),
            Some (Err (''unexpected error getting manifest by tag: '' @ errorText e)))"
  using assms(2)
proof (induction pre)
  case Nil
  with assms(1) show ?case by simp
next
  case (Cons t pre)
  then obtain mnfst where "GetByTag registry manifests t = Inr mnfst" by auto
  with Cons show ?case
    by (simp add: checkManifest_unfold split: prod.splits)
qed

lemma in_sum_list_mset:
  "x \<in> set (f r) \<Longrightarrow> r \<in> set rs \<Longrightarrow> x \<in># sum_list (map (\<lambda>r. mset (f r)) rs)"
  by (induction rs) auto

lemma finished_called:
  "reachable um registry repos s \<Longrightarrow> finished s \<Longrightarrow> called s = repos"
  using reachable_called_queue [of um registry repos s] reachable_closed [of um registry repos s]
  by (simp add: finished_def)

lemma finished_written:
  assumes "reachable um registry repos s" and "finished s"
  shows "mset (written s) =
     sum_list (map (\<lambda>repoName. mset (workerBody um registry repoName)) repos)"
  using reachable_written [OF assms(1)] finished_pending [OF assms(2)]
    finished_called [OF assms]
  by simp

lemma finished_error_line:
  assumes "reachable um registry repos s" and "finished s"
    and "repoName \<in> set repos" and "checkRepo um registry repoName = (out, Some err)"
  shows "(Stderr, errorText err @ newline) \<in> set (written s)"
proof -
  from assms(4) have "(Stderr, errorText err @ newline) \<in> set (workerBody um registry repoName)"
    by (simp add: workerBody_def)
  from in_sum_list_mset [of _ "workerBody um registry", OF this assms(3)]
  have "(Stderr, errorText err @ newline) \<in># mset (written s)"
    by (simp add: finished_written [OF assms(1,2)])
  then show ?thesis by simp
qed



lemma checkManifest_part000_snd: "snd (checkManifest_part000 um repoName mnfst) = None"
  by (simp add: checkManifest_part000_def split: prod.splits)

lemma checkTags_part000_abandon:
  assumes "GetByTag registry manifests tag = Inl e"
    and "\<forall>t\<in>set pre. \<exists>mnfst. GetByTag registry manifests t = Inr mnfst"
  shows "checkTags_part000 um registry manifests repoName (pre @ tag # post) =
           (fst (checkTags_part000 um registry manifests repoName pre),
            Some (Err (''unexpected error getting manifest by tag: '' @ errorText e)))"
  using assms(2)
proof (induction pre)
  case Nil
  with assms(1) show ?case by simp
next
  case (Cons t pre)
  then obtain mnfst where t: "GetByTag registry manifests t = Inr mnfst" by auto
  obtain out where "checkManifest_part000 um repoName mnfst = (out, None)"
    using checkManifest_part000_snd [of um repoName mnfst]
    by (cases "checkManifest_part000 um repoName mnfst") simp
  with Cons t show ?case
    by (simp split: prod.splits)
qed

lemma scanRepos_part000_panic:
  assumes "\<forall>r\<in>set pre. snd (checkRepo_part000 um registry r) = None"
    and "checkRepo_part000 um registry repoName = (out, Some err)"
  shows "scanRepos_part000 um registry (pre @ repoName # post) =
           (concat (map (\<lambda>r. fst (checkRepo_part000 um registry r)) pre) @ out,
            pre @ [repoName], Some err)"
  using assms(1)
proof (induction pre)
  case Nil
  with assms(2) show ?case by simp
next
  case (Cons r pre)
  then have "snd (checkRepo_part000 um registry r) = None" by simp
  then obtain o1 where "checkRepo_part000 um registry r = (o1, None)"
    by (cases "checkRepo_part000 um registry r") simp
  with Cons show ?case by simp
qed




text \<open>
  Claim C2, as the code has it. In \<^verbatim>\<open>src/main.go\<close>, in every state a run of the thirty
  workers over \<open>repos\<close> can reach: some goroutine can take a step unless \<open>main\<close> has
  finished, every step brings the end nearer, and the end can be reached, so that no
  failure of a repository stops the scan; when \<open>main\<close> has finished, \<open>checkRepo\<close> has
  been called on every name of \<open>repos\<close>, the writes are those of the workers' loop
  bodies for these names, and for every name whose \<open>checkRepo\<close> returned an error that
  error is a line on the standard error. \<open>checkRepo\<close> returns an error, without a
  further call for that repository, when the repository cannot be opened, its manifest
  service cannot be had, or its tags cannot be listed; and when \<open>GetByTag\<close> fails for a
  tag it returns an error after the manifests of the tags before it, leaving the tags
  after it alone. In \<^verbatim>\<open>src/unnamed/part_000\<close>, \<open>checkRepo\<close> returns an error in the
  same four cases, and the loop of \<open>main\<close> turns the first error into a panic: the
  repositories before the failing one have been scanned, \<open>checkRepo\<close> is called on no
  repository after it, and the run ends with the panic.
\<close>

theorem C2_repository_errors:
  assumes "reachable um registry repos s"
  shows "(\<not> finished s \<longrightarrow> (\<exists>s'. step um registry s s'))
       \<and> (\<forall>s'. step um registry s s' \<longrightarrow> stepsLeft um registry s' < stepsLeft um registry s)
       \<and> (\<exists>s'. rtranclp (step um registry) s s' \<and> finished s')
       \<and> (finished s \<longrightarrow>
            called s = repos
            \<and> mset (written s) =
                sum_list (map (\<lambda>repoName. mset (workerBody um registry repoName)) repos)
            \<and> (\<forall>repoName \<in> set repos. \<forall>out err.
                  checkRepo um registry repoName = (out, Some err) \<longrightarrow>
                  (Stderr, errorText err @ newline) \<in> set (written s)))
       \<and> (\<forall>repoName e. Repository registry repoName = Inl e \<longrightarrow>
            checkRepo um registry repoName =
              ([], Some (Err (''unexpected error getting repository: '' @ errorText e))))
       \<and> (\<forall>repoName repo e.
            Repository registry repoName = Inr repo \<and> Manifests registry repo = Inl e \<longrightarrow>
            checkRepo um registry repoName =
              ([], Some (Err (''unexpected error getting manifests: '' @ errorText e))))
       \<and> (\<forall>repoName repo manifests e.
            Repository registry repoName = Inr repo \<and> Manifests registry repo = Inr manifests
            \<and> Tags registry manifests = Inl e \<longrightarrow>
            checkRepo um registry repoName =
              ([], Some (Err (''unexpected error getting tags: '' @ errorText e))))
       \<and> (\<forall>repoName repo manifests pre tag post e.
            Repository registry repoName = Inr repo \<and> Manifests registry repo = Inr manifests
            \<and> Tags registry manifests = Inr (pre @ tag # post)
            \<and> (\<forall>t\<in>set pre. \<exists>mnfst. GetByTag registry manifests t = Inr mnfst)
            \<and> GetByTag registry manifests tag = Inl e \<longrightarrow>
            checkRepo um registry repoName =
              ((Stderr, checkingLine repoName) # fst (checkTags um registry manifests repoName pre),
               Some (Err (''unexpected error getting manifest by tag: '' @ errorText e))))
       \<and> (\<forall>pre repoName post out err.
            (\<forall>r\<in>set pre. snd (checkRepo_part000 um registry r) = None)
            \<and> checkRepo_part000 um registry repoName = (out, Some err) \<longrightarrow>
            scanRepos_part000 um registry (pre @ repoName # post) =
              (concat (map (\<lambda>r. fst (checkRepo_part000 um registry r)) pre) @ out,
               pre @ [repoName], Some err))
       \<and> (\<forall>repoName e. Repository registry repoName = Inl e \<longrightarrow>
            checkRepo_part000 um registry repoName =
              ([], Some (Err (''unexpected error getting repository: '' @ errorText e))))
       \<and> (\<forall>repoName repo e.
            Repository registry repoName = Inr repo \<and> Manifests registry repo = Inl e \<longrightarrow>
            checkRepo_part000 um registry repoName =
              ([], Some (Err (''unexpected error getting manifests: '' @ errorText e))))
       \<and> (\<forall>repoName repo manifests e.
            Repository registry repoName = Inr repo \<and> Manifests registry repo = Inr manifests
            \<and> Tags registry manifests = Inl e \<longrightarrow>
            checkRepo_part000 um registry repoName =
              ([], Some (Err (''unexpected error getting tags: '' @ errorText e))))
       \<and> (\<forall>repoName repo manifests pre tag post e.
            Repository registry repoName = Inr repo \<and> Manifests registry repo = Inr manifests
            \<and> Tags registry manifests = Inr (pre @ tag # post)
            \<and> (\<forall>t\<in>set pre. \<exists>mnfst. GetByTag registry manifests t = Inr mnfst)
            \<and> GetByTag registry manifests tag = Inl e \<longrightarrow>
            checkRepo_part000 um registry repoName =
              (fst (checkTags_part000 um registry manifests repoName pre),
               Some (Err (''unexpected error getting manifest by tag: '' @ errorText e))))"
proof -
  have a: "\<not> finished s \<longrightarrow> (\<exists>s'. step um registry s s')"
    using reachable_progress [OF assms] by blast
  have b: "\<forall>s'. step um registry s s' \<longrightarrow> stepsLeft um registry s' < stepsLeft um registry s"
    using step_decreases by blast
  have c: "\<exists>s'. rtranclp (step um registry) s s' \<and> finished s'"
    by (rule reachable_completes [OF assms])
  have d: "finished s \<longrightarrow>
            called s = repos
            \<and> mset (written s) =
                sum_list (map (\<lambda>repoName. mset (workerBody um registry repoName)) repos)
            \<and> (\<forall>repoName \<in> set repos. \<forall>out err.
                  checkRepo um registry repoName = (out, Some err) \<longrightarrow>
                  (Stderr, errorText err @ newline) \<in> set (written s))"
    using finished_called [OF assms] finished_written [OF assms] finished_error_line [OF assms]
    by blast
  have e: "\<forall>repoName e. Repository registry repoName = Inl e \<longrightarrow>
            checkRepo um registry repoName =
              ([], Some (Err (''unexpected error getting repository: '' @ errorText e)))"
    by (simp add: checkRepo_def)
  have f: "\<forall>repoName repo e.
            Repository registry repoName = Inr repo \<and> Manifests registry repo = Inl e \<longrightarrow>
            checkRepo um registry repoName =
              ([], Some (Err (''unexpected error getting manifests: '' @ errorText e)))"
    by (simp add: checkRepo_def)
  have g: "\<forall>repoName repo manifests e.
            Repository registry repoName = Inr repo \<and> Manifests registry repo = Inr manifests
            \<and> Tags registry manifests = Inl e \<longrightarrow>
            checkRepo um registry repoName =
              ([], Some (Err (''unexpected error getting tags: '' @ errorText e)))"
    by (simp add: checkRepo_def)
  have h: "\<forall>repoName repo manifests pre tag post e.
            Repository registry repoName = Inr repo \<and> Manifests registry repo = Inr manifests
            \<and> Tags registry manifests = Inr (pre @ tag # post)
            \<and> (\<forall>t\<in>set pre. \<exists>mnfst. GetByTag registry manifests t = Inr mnfst)
            \<and> GetByTag registry manifests tag = Inl e \<longrightarrow>
            checkRepo um registry repoName =
              ((Stderr, checkingLine repoName) # fst (checkTags um registry manifests repoName pre),
               Some (Err (''unexpected error getting manifest by tag: '' @ errorText e)))"
    by (simp add: checkRepo_def checkTags_abandon)
  have i: "\<forall>pre repoName post out err.
            (\<forall>r\<in>set pre. snd (checkRepo_part000 um registry r) = None)
            \<and> checkRepo_part000 um registry repoName = (out, Some err) \<longrightarrow>
            scanRepos_part000 um registry (pre @ repoName # post) =
              (concat (map (\<lambda>r. fst (checkRepo_part000 um registry r)) pre) @ out,
               pre @ [repoName], Some err)"
    using scanRepos_part000_panic by blast
  have j: "\<forall>repoName e. Repository registry repoName = Inl e \<longrightarrow>
            checkRepo_part000 um registry repoName =
              ([], Some (Err (''unexpected error getting repository: '' @ errorText e)))"
    by (simp add: checkRepo_part000_def)
  have k: "\<forall>repoName repo e.
            Repository registry repoName = Inr repo \<and> Manifests registry repo = Inl e \<longrightarrow>
            checkRepo_part000 um registry repoName =
              ([], Some (Err (''unexpected error getting manifests: '' @ errorText e)))"
    by (simp add: checkRepo_part000_def)
  have l: "\<forall>repoName repo manifests e.
            Repository registry repoName = Inr repo \<and> Manifests registry repo = Inr manifests
            \<and> Tags registry manifests = Inl e \<longrightarrow>
            checkRepo_part000 um registry repoName =
              ([], Some (Err (''unexpected error getting tags: '' @ errorText e)))"
    by (simp add: checkRepo_part000_def)
  have m: "\<forall>repoName repo manifests pre tag post e.
            Repository registry repoName = Inr repo \<and> Manifests registry repo = Inr manifests
            \<and> Tags registry manifests = Inr (pre @ tag # post)
            \<and> (\<forall>t\<in>set pre. \<exists>mnfst. GetByTag registry manifests t = Inr mnfst)
            \<and> GetByTag registry manifests tag = Inl e \<longrightarrow>
            checkRepo_part000 um registry repoName =
              (fst (checkTags_part000 um registry manifests repoName pre),
               Some (Err (''unexpected error getting manifest by tag: '' @ errorText e)))"
    by (simp add: checkRepo_part000_def checkTags_part000_abandon)
  show ?thesis
    by (intro conjI) (rule a b c d e f g h i j k l m)+
qed

lemma sample_broken:
  "checkRepo sampleUnmarshal sampleRegistry ''broken'' =
     ([], Some (Err ''unexpected error getting repository: repository unknown''))"
  by (simp add: checkRepo_def sampleRegistry_def)

theorem C2_repository_errors_witness:
  "(\<exists>s. reachable sampleUnmarshal sampleRegistry [''broken'', ''library/app''] s \<and> finished s
       \<and> called s = [''broken'', ''library/app'']
       \<and> (Stderr, ''unexpected error getting repository: repository unknown'' @ newline)
           \<in> set (written s))
   \<and> scanRepos_part000 sampleUnmarshal sampleRegistry ([''other''] @ ''broken'' # [''library/app'']) =
       ([], [''other''] @ [''broken''],
        Some (Err ''unexpected error getting repository: repository unknown''))"
proof -
  from run_exists [of sampleUnmarshal sampleRegistry "[''broken'', ''library/app'']"]
  obtain s where reach: "reachable sampleUnmarshal sampleRegistry [''broken'', ''library/app''] s"
    and fin: "finished s" by blast
  note c2 = C2_repository_errors [OF reach, THEN conjunct2, THEN conjunct2, THEN conjunct2,
      THEN conjunct1, rule_format, OF fin]
  from c2 have called: "called s = [''broken'', ''library/app'']" by (rule conjunct1)
  have "''broken'' \<in> set [''broken'', ''library/app'']" by simp
  from c2 [THEN conjunct2, THEN conjunct2, rule_format, OF this sample_broken]
  have "(Stderr, ''unexpected error getting repository: repository unknown'' @ newline)
           \<in> set (written s)" by simp
  with reach fin called
  have pool: "\<exists>s. reachable sampleUnmarshal sampleRegistry [''broken'', ''library/app''] s \<and> finished s
       \<and> called s = [''broken'', ''library/app'']
       \<and> (Stderr, ''unexpected error getting repository: repository unknown'' @ newline)
           \<in> set (written s)" by blast
  have other: "checkRepo_part000 sampleUnmarshal sampleRegistry ''other'' = ([], None)"
    by (simp add: checkRepo_part000_def sampleRegistry_def)
  have broken: "checkRepo_part000 sampleUnmarshal sampleRegistry ''broken'' =
      ([], Some (Err ''unexpected error getting repository: repository unknown''))"
    by (simp add: checkRepo_part000_def sampleRegistry_def)
  from other have before: "\<forall>r\<in>set [''other'']. snd (checkRepo_part000 sampleUnmarshal sampleRegistry r) = None"
    by simp
  note loop = C2_repository_errors [OF reach, THEN conjunct2, THEN conjunct2, THEN conjunct2,
      THEN conjunct2, THEN conjunct2, THEN conjunct2, THEN conjunct2, THEN conjunct2,
      THEN conjunct1, rule_format, OF conjI [OF before broken], of "[''library/app'']"]
  have "scanRepos_part000 sampleUnmarshal sampleRegistry ([''other''] @ ''broken'' # [''library/app'']) =
       ([], [''other''] @ [''broken''],
        Some (Err ''unexpected error getting repository: repository unknown''))"
    using loop by (simp add: other)
  with pool show ?thesis by (rule conjI)
qed

text \<open>
  In \<^verbatim>\<open>src/unnamed/part_000\<close> the error of the first repository is the value of a
  panic: \<open>checkRepo\<close> is never called on the second one.
\<close>

theorem C2_part000_panic_counterexample:
  "scanRepos_part000 sampleUnmarshal sampleRegistry [''broken'', ''library/app''] =
     ([], [''broken''], Some (Err ''unexpected error getting repository: repository unknown''))"
  by (simp add: checkRepo_part000_def sampleRegistry_def)





end
